theory Spec2Isabelle
  imports Main "HOL-Library.Sublist"
begin

section \<open>Python values used by \<open>update_articles.py\<close>\<close>

text \<open>
  A Python \<open>str\<close> is a sequence of Unicode code points, so it is modelled as a list of
  natural numbers; \<open>len\<close>, slicing and \<open>in\<close> then count what Python counts.
  \<open>str\<close> turns an ASCII literal of the script into such a list. The only non-ASCII
  character of the script's literals is U+00E9 (233).
\<close>

type_synonym pystr = "nat list"

definition str :: "string \<Rightarrow> pystr" where
  "str s = map of_char s"

text \<open>
  A dictionary with string keys, in insertion order. \<open>d[k]\<close> is \<open>map_of d k\<close> with
  \<open>None\<close> raising \<open>KeyError\<close>; \<open>d.get(k, default)\<close> is \<open>dict_get\<close>.
\<close>

type_synonym pydict = "(string \<times> pystr) list"

definition dict_get :: "pydict \<Rightarrow> string \<Rightarrow> pystr \<Rightarrow> pystr" where
  "dict_get d k dflt = (case map_of d k of None \<Rightarrow> dflt | Some v \<Rightarrow> v)"

text \<open>
  The exceptions a run can end with. \<open>NameTooLong\<close> is the plain \<open>OSError\<close> with errno 36;
  \<open>ValueError\<close> also stands for its subclass \<open>UnicodeEncodeError\<close>. All but \<open>KeyError\<close>
  and \<open>ValueError\<close> are instances of \<open>OSError\<close>.
\<close>

datatype error =
    KeyError string
  | ValueError
  | FileNotFoundError
  | FileExistsError
  | NotADirectoryError
  | IsADirectoryError
  | NameTooLong

definition is_OSError :: "error \<Rightarrow> bool" where
  "is_OSError e \<longleftrightarrow> e = FileNotFoundError \<or> e = FileExistsError \<or> e = NotADirectoryError
     \<or> e = IsADirectoryError \<or> e = NameTooLong"

text \<open>\<open>datetime.date\<close> and its \<open>isoformat()\<close>, which is \<open>%04d-%02d-%02d\<close>
  (a date's year is at most 9999).\<close>

record pydate =
  year :: nat
  month :: nat
  day :: nat

definition digit :: "nat \<Rightarrow> nat" where
  "digit n = 48 + n mod 10"

definition isoformat :: "pydate \<Rightarrow> pystr" where
  "isoformat d =
     [digit (year d div 1000), digit (year d div 100), digit (year d div 10), digit (year d)]
     @ str ''-'' @ [digit (month d div 10), digit (month d)]
     @ str ''-'' @ [digit (day d div 10), digit (day d)]"

text \<open>
  Everything a run reads from outside the script: the entries of the parsed feed
  (\<open>feedparser.parse(FEED_URL).entries\<close>), the clock, and the two standard-library
  tables the script reaches through \<open>html.unescape\<close> and \<open>str.lower\<close>.
\<close>

record env =
  feed_entries :: "pydict list"
  utcnow_isoformat :: pystr
  today :: pydate
  charref_sub :: "pystr \<Rightarrow> pystr"
  unicode_lower :: "pystr \<Rightarrow> pystr"

text \<open>
  \<open>html.unescape(s)\<close> returns \<open>s\<close> itself when it holds no \<open>&\<close> (code point 38), and
  otherwise substitutes the character references (\<open>charref_sub\<close>, the library's table).
\<close>

definition html_unescape :: "env \<Rightarrow> pystr \<Rightarrow> pystr" where
  "html_unescape w s = (if 38 \<notin> set s then s else charref_sub w s)"

text \<open>
  \<open>str.lower()\<close>: on an ASCII string it maps \<open>A..Z\<close> to \<open>a..z\<close> and keeps every other
  character; on other strings it follows the Unicode tables (\<open>unicode_lower\<close>).
\<close>

definition ascii_lower :: "nat \<Rightarrow> nat" where
  "ascii_lower c = (if 65 \<le> c \<and> c \<le> 90 then c + 32 else c)"

definition str_lower :: "env \<Rightarrow> pystr \<Rightarrow> pystr" where
  "str_lower w s = (if list_all (\<lambda>c. c < 128) s then map ascii_lower s else unicode_lower w s)"

text \<open>\<open>str.split()\<close> with no argument: split at runs of whitespace, no empty words.\<close>

definition is_space :: "nat \<Rightarrow> bool" where
  "is_space c \<longleftrightarrow>
     (9 \<le> c \<and> c \<le> 13) \<or> (28 \<le> c \<and> c \<le> 32) \<or> c = 133 \<or> c = 160 \<or> c = 5760
     \<or> (8192 \<le> c \<and> c \<le> 8202) \<or> c = 8232 \<or> c = 8233 \<or> c = 8239 \<or> c = 8287
     \<or> c = 12288"

fun split_from :: "pystr \<Rightarrow> pystr \<Rightarrow> pystr list" where
  "split_from word [] = (if word = [] then [] else [word])"
| "split_from word (c # cs) =
     (if is_space c then (if word = [] then split_from [] cs else word # split_from [] cs)
      else split_from (word @ [c]) cs)"

definition split_ws :: "pystr \<Rightarrow> pystr list" where
  "split_ws s = split_from [] s"

fun join :: "pystr \<Rightarrow> pystr list \<Rightarrow> pystr" where
  "join sep [] = []"
| "join sep [w] = w"
| "join sep (w # ws) = w @ sep @ join sep ws"

text \<open>The index of the first element a loop with \<open>break\<close> stops at.\<close>

fun first_index :: "('a \<Rightarrow> bool) \<Rightarrow> 'a list \<Rightarrow> nat option" where
  "first_index P [] = None"
| "first_index P (x # xs) = (if P x then Some 0 else map_option Suc (first_index P xs))"

section \<open>Paths and files\<close>

text \<open>\<open>posixpath.join\<close> of two components, and \<open>posixpath.split\<close> as \<open>dirname\<close> and
  \<open>basename\<close>. The separator is \<open>/\<close> (47).\<close>

definition path_join :: "pystr \<Rightarrow> pystr \<Rightarrow> pystr" where
  "path_join a b =
     (if b \<noteq> [] \<and> hd b = 47 then b
      else if a = [] \<or> last a = 47 then a @ b
      else a @ [47] @ b)"

definition dirname :: "pystr \<Rightarrow> pystr" where
  "dirname p =
     (let head = rev (dropWhile (\<lambda>c. c \<noteq> 47) (rev p))
      in if head \<noteq> [] \<and> \<not> list_all (\<lambda>c. c = 47) head
         then rev (dropWhile (\<lambda>c. c = 47) (rev head))
         else head)"

definition basename :: "pystr \<Rightarrow> pystr" where
  "basename p = rev (takeWhile (\<lambda>c. c \<noteq> 47) (rev p))"

text \<open>
  The file system is a tree of directories and regular files, each file with its decoded
  text. A node is stored under the path that names it from the root with proper names
  only, joined by \<open>/\<close>; the root itself is a directory and has no entry. The root is the
  repository root, which is also the working directory of the run; there are no links
  and no permissions, and the encoding of file contents is not modelled.
\<close>

datatype node = File pystr | Dir

type_synonym filesystem = "pystr \<Rightarrow> node option"

text \<open>The components of a path, \<open>p.split('/')\<close>, and the key of a list of names.\<close>

fun components :: "pystr \<Rightarrow> pystr list" where
  "components [] = [[]]"
| "components (c # cs) =
     (if c = 47 then [] # components cs
      else (case components cs of [] \<Rightarrow> [[c]] | w # ws \<Rightarrow> (c # w) # ws))"

definition key_of :: "pystr list \<Rightarrow> pystr" where
  "key_of names = join [47] names"

definition node_at :: "filesystem \<Rightarrow> pystr list \<Rightarrow> node option" where
  "node_at fs names = (if names = [] then Some Dir else fs (key_of names))"

text \<open>
  What the system refuses before it looks anything up: a path that cannot be encoded
  (a NUL, or a surrogate outside U+DC80..U+DCFF) raises \<open>ValueError\<close>, the empty path
  is not found, and a path of 4096 bytes or more is too long. A name of more than 255
  bytes is too long for a directory entry.
\<close>

definition unencodable :: "nat \<Rightarrow> bool" where
  "unencodable c \<longleftrightarrow> c = 0 \<or> (55296 \<le> c \<and> c < 56448) \<or> (56576 \<le> c \<and> c \<le> 57343)"

definition utf8_length :: "pystr \<Rightarrow> nat" where
  "utf8_length s =
     sum_list (map (\<lambda>c. if c < 128 then 1 else if c < 2048 then 2
                         else if 56448 \<le> c \<and> c < 56576 then 1
                         else if c < 65536 then 3 else 4) s)"

definition path_check :: "pystr \<Rightarrow> error option" where
  "path_check p =
     (if list_ex unencodable p then Some ValueError
      else if p = [] then Some FileNotFoundError
      else if 4096 \<le> utf8_length p then Some NameTooLong
      else None)"

text \<open>
  Walking the components from a directory: each component is looked up in the
  directory reached so far, which must exist and be a directory. An empty component and
  \<open>.\<close> stay, \<open>..\<close> goes to the parent (the root is its own parent), a name goes down,
  whether or not the name exists there.
\<close>

definition step_to :: "pystr list \<Rightarrow> pystr \<Rightarrow> pystr list" where
  "step_to cur c =
     (if c = [] \<or> c = str ''.'' then cur
      else if c = str ''..'' then butlast cur
      else cur @ [c])"

fun walk :: "filesystem \<Rightarrow> pystr list \<Rightarrow> pystr list \<Rightarrow> error + pystr list" where
  "walk fs cur [] = Inr cur"
| "walk fs cur (c # cs) =
     (case node_at fs cur of
        None \<Rightarrow> Inl FileNotFoundError
      | Some (File _) \<Rightarrow> Inl NotADirectoryError
      | Some Dir \<Rightarrow>
          if 255 < utf8_length c then Inl NameTooLong else walk fs (step_to cur c) cs)"

text \<open>\<open>os.stat(p)\<close>: the node the whole path leads to, which must exist.\<close>

definition stat :: "filesystem \<Rightarrow> pystr \<Rightarrow> error + node" where
  "stat fs p =
     (case path_check p of
        Some e \<Rightarrow> Inl e
      | None \<Rightarrow>
          (case walk fs [] (components p) of
             Inl e \<Rightarrow> Inl e
           | Inr names \<Rightarrow>
               (case node_at fs names of None \<Rightarrow> Inl FileNotFoundError | Some n \<Rightarrow> Inr n)))"

text \<open>\<open>os.path.exists\<close> and \<open>os.path.isdir\<close>: \<open>os.stat\<close> with every error caught.\<close>

definition path_exists :: "filesystem \<Rightarrow> pystr \<Rightarrow> bool" where
  "path_exists fs p \<longleftrightarrow> (case stat fs p of Inl _ \<Rightarrow> False | Inr _ \<Rightarrow> True)"

definition isdir :: "filesystem \<Rightarrow> pystr \<Rightarrow> bool" where
  "isdir fs p \<longleftrightarrow> (case stat fs p of Inr Dir \<Rightarrow> True | _ \<Rightarrow> False)"

text \<open>
  Creating an entry, as \<open>mkdir\<close> and \<open>open(p, "w")\<close> do: trailing separators are set
  aside, all components but the last lead to the parent, which must be a directory, and
  the last component names the entry in it.
\<close>

definition rstrip_sep :: "pystr \<Rightarrow> pystr" where
  "rstrip_sep p = rev (dropWhile (\<lambda>c. c = 47) (rev p))"

definition walk_parent :: "filesystem \<Rightarrow> pystr \<Rightarrow> error + pystr list" where
  "walk_parent fs q =
     (case walk fs [] (butlast (components q)) of
        Inl e \<Rightarrow> Inl e
      | Inr names \<Rightarrow>
          (case node_at fs names of
             None \<Rightarrow> Inl FileNotFoundError
           | Some (File _) \<Rightarrow> Inl NotADirectoryError
           | Some Dir \<Rightarrow> Inr names))"

text \<open>A name that can be given to a new directory entry.\<close>

definition proper_name :: "pystr \<Rightarrow> bool" where
  "proper_name c \<longleftrightarrow> c \<noteq> [] \<and> c \<noteq> str ''.'' \<and> c \<noteq> str ''..'' \<and> 47 \<notin> set c
     \<and> \<not> list_ex unencodable c \<and> utf8_length c \<le> 255"

text \<open>\<open>os.mkdir(p)\<close>.\<close>

definition mkdir :: "pystr \<Rightarrow> filesystem \<Rightarrow> (error + unit) \<times> filesystem" where
  "mkdir p fs =
     (case path_check p of
        Some e \<Rightarrow> (Inl e, fs)
      | None \<Rightarrow>
          if rstrip_sep p = [] then (Inl FileExistsError, fs)
          else
            (case walk_parent fs (rstrip_sep p) of
               Inl e \<Rightarrow> (Inl e, fs)
             | Inr parent \<Rightarrow>
                 (let name = last (components (rstrip_sep p))
                  in if name = str ''.'' \<or> name = str ''..'' then (Inl FileExistsError, fs)
                     else if 255 < utf8_length name then (Inl NameTooLong, fs)
                     else if node_at fs (parent @ [name]) \<noteq> None then (Inl FileExistsError, fs)
                     else (Inr (), fs(key_of (parent @ [name]) \<mapsto> Dir)))))"

text \<open>
  \<open>os.makedirs(name, exist_ok=True)\<close>, as the library defines it: split off the last
  part, create the head first when it does not exist, then \<open>mkdir\<close>; an \<open>OSError\<close> of
  \<open>mkdir\<close> is swallowed when the directory is there.
\<close>

definition makedirs_head :: "pystr \<Rightarrow> pystr" where
  "makedirs_head name = (if basename name = [] then dirname (dirname name) else dirname name)"

definition makedirs_tail :: "pystr \<Rightarrow> pystr" where
  "makedirs_tail name = (if basename name = [] then basename (dirname name) else basename name)"

definition mkdir_exist_ok :: "pystr \<Rightarrow> filesystem \<Rightarrow> (error + unit) \<times> filesystem" where
  "mkdir_exist_ok name fs =
     (case mkdir name fs of
        (Inr _, fs1) \<Rightarrow> (Inr (), fs1)
      | (Inl e, fs1) \<Rightarrow> if is_OSError e \<and> isdir fs1 name then (Inr (), fs1) else (Inl e, fs1))"

function makedirs :: "pystr \<Rightarrow> filesystem \<Rightarrow> (error + unit) \<times> filesystem" where
  "makedirs name fs =
     (if makedirs_head name \<noteq> [] \<and> makedirs_tail name \<noteq> []
         \<and> \<not> path_exists fs (makedirs_head name)
      then
        (case makedirs (makedirs_head name) fs of
           (Inl e, fs1) \<Rightarrow>
             if e = FileExistsError
             then (if makedirs_tail name = str ''.'' then (Inr (), fs1)
                   else mkdir_exist_ok name fs1)
             else (Inl e, fs1)
         | (Inr _, fs1) \<Rightarrow>
             if makedirs_tail name = str ''.'' then (Inr (), fs1)
             else mkdir_exist_ok name fs1)
      else mkdir_exist_ok name fs)"
  by pat_completeness auto
termination
proof (relation "measure (\<lambda>(name, fs). length name)")
  show "wf (measure (\<lambda>(name, fs). length name))" by simp
next
  fix name :: pystr and fs :: filesystem
  assume a: "makedirs_head name \<noteq> [] \<and> makedirs_tail name \<noteq> []
               \<and> \<not> path_exists fs (makedirs_head name)"
  have split: "length (dirname p) + length (basename p) \<le> length p" for p :: pystr
  proof -
    define head where "head = rev (dropWhile (\<lambda>c. c \<noteq> 47) (rev p))"
    have "length (takeWhile (\<lambda>c. c \<noteq> 47) (rev p)) + length (dropWhile (\<lambda>c. c \<noteq> 47) (rev p))
            = length (rev p)"
      by (metis length_append takeWhile_dropWhile_id)
    then have whole: "length head + length (basename p) = length p"
      by (simp add: head_def basename_def)
    have "length (dropWhile (\<lambda>c. c = 47) (rev head)) \<le> length head"
      using length_dropWhile_le [of "\<lambda>c. c = 47" "rev head"] by simp
    then have "length (dirname p) \<le> length head"
      by (simp add: dirname_def head_def [symmetric] Let_def)
    with whole show ?thesis by simp
  qed
  have "length (makedirs_head name) < length name"
  proof (cases "basename name = []")
    case True
    with a have "basename (dirname name) \<noteq> []" by (simp add: makedirs_tail_def)
    then have "0 < length (basename (dirname name))" by simp
    with split [of "dirname name"] split [of name]
    have "length (dirname (dirname name)) < length name" by arith
    with True show ?thesis by (simp add: makedirs_head_def)
  next
    case False
    then have "0 < length (basename name)" by simp
    with split [of name] have "length (dirname name) < length name" by arith
    with False show ?thesis by (simp add: makedirs_head_def)
  qed
  then show "((makedirs_head name, fs), (name, fs)) \<in> measure (\<lambda>(name, fs). length name)"
    by simp
qed

declare makedirs.simps [simp del]

text \<open>
  \<open>open(p, "w")\<close> followed by writing \<open>text\<close> and closing: the file is created or
  truncated. A trailing separator, \<open>.\<close> or \<open>..\<close> as the last part, and an existing
  directory are refused.
\<close>

definition open_write :: "pystr \<Rightarrow> pystr \<Rightarrow> filesystem \<Rightarrow> (error + unit) \<times> filesystem" where
  "open_write p text fs =
     (case path_check p of
        Some e \<Rightarrow> (Inl e, fs)
      | None \<Rightarrow>
          if rstrip_sep p = [] then (Inl IsADirectoryError, fs)
          else
            (case walk_parent fs (rstrip_sep p) of
               Inl e \<Rightarrow> (Inl e, fs)
             | Inr parent \<Rightarrow>
                 (let name = last (components (rstrip_sep p))
                  in if name = str ''.'' \<or> name = str ''..'' \<or> rstrip_sep p \<noteq> p
                     then (Inl IsADirectoryError, fs)
                     else if 255 < utf8_length name then (Inl NameTooLong, fs)
                     else if node_at fs (parent @ [name]) = Some Dir
                     then (Inl IsADirectoryError, fs)
                     else (Inr (), fs(key_of (parent @ [name]) \<mapsto> File text)))))"

text \<open>\<open>open(p, "r")\<close> followed by reading the whole text.\<close>

definition open_read :: "pystr \<Rightarrow> filesystem \<Rightarrow> error + pystr" where
  "open_read p fs =
     (case stat fs p of
        Inl e \<Rightarrow> Inl e
      | Inr Dir \<Rightarrow> Inl IsADirectoryError
      | Inr (File text) \<Rightarrow> Inr text)"

text \<open>
  Reading in text mode translates \<open>\r\n\<close> and \<open>\r\<close> to \<open>\n\<close> (universal newlines);
  \<open>readlines()\<close> then cuts the text after every \<open>\n\<close> (10), keeping it.
  \<open>writelines\<close> writes the concatenation of the lines.
\<close>

fun translate_newlines :: "pystr \<Rightarrow> pystr" where
  "translate_newlines [] = []"
| "translate_newlines [c] = [if c = 13 then 10 else c]"
| "translate_newlines (c # d # cs) =
     (if c = 13 then (if d = 10 then 10 # translate_newlines cs
                      else 10 # translate_newlines (d # cs))
      else c # translate_newlines (d # cs))"

fun split_lines :: "pystr \<Rightarrow> pystr list" where
  "split_lines [] = []"
| "split_lines (c # cs) =
     (if c = 10 then [c] # split_lines cs
      else (case split_lines cs of [] \<Rightarrow> [[c]] | l # ls \<Rightarrow> (c # l) # ls))"

definition readlines :: "pystr \<Rightarrow> pystr list" where
  "readlines text = split_lines (translate_newlines text)"

text \<open>A line as \<open>readlines\<close> returns it when it is not the unterminated last one.\<close>

definition complete_line :: "pystr \<Rightarrow> bool" where
  "complete_line l \<longleftrightarrow> l \<noteq> [] \<and> last l = 10 \<and> 10 \<notin> set (butlast l)"

section \<open>The script\<close>

definition NEWS_DIR :: pystr where
  "NEWS_DIR = str ''news''"

definition INDEX_FILE :: pystr where
  "INDEX_FILE = str ''index.html''"

subsection \<open>\<open>fetch_latest_entry\<close>\<close>

definition fetch_latest_entry :: "env \<Rightarrow> pydict option" where
  "fetch_latest_entry w =
     (case feed_entries w of
        [] \<Rightarrow> None
      | entry # _ \<Rightarrow>
          Some [(''title'', html_unescape w (dict_get entry ''title'' (str ''Article sans titre''))),
                (''link'', dict_get entry ''link'' []),
                (''description'', html_unescape w (dict_get entry ''description'' [])),
                (''published'', dict_get entry ''published'' (utcnow_isoformat w))])"

subsection \<open>\<open>generate_article_html\<close>\<close>

text \<open>The f-string of the page, one list element per piece between two substitutions.\<close>

definition article_content :: "pystr \<Rightarrow> pystr \<Rightarrow> pystr \<Rightarrow> pystr \<Rightarrow> pystr" where
  \<open>article_content title link description published = concat
     [str ''\<newline><!DOCTYPE html>\<newline><html lang="fr">\<newline><head>\<newline>'',
      str ''  <meta charset="UTF-8">\<newline>'',
      str ''  <meta name="viewport" content="width=device-width, initial-scale=1.0">\<newline>'',
      str ''  <title>'', title, str ''</title>\<newline>'',
      str ''  <link rel="stylesheet" href="../styles.css">\<newline></head>\<newline><body>\<newline>'',
      str ''  <header>\<newline>    <h1>'', title, str ''</h1>\<newline>'',
      str ''    <nav>\<newline>      <a href="../index.html">Accueil</a>\<newline>    </nav>\<newline>'',
      str ''  </header>\<newline>  <main class="article">\<newline>'',
      str ''    <p><em>Publi'', [233], str '' le '', published, str ''</em></p>\<newline>'',
      str ''    <p>'', description, str ''</p>\<newline>'',
      str ''    <p>Lire l'article complet : <a href="'', link, str ''">source</a></p>\<newline>'',
      str ''  </main>\<newline>  <footer>\<newline>'',
      str ''    <p>Ce contenu provient d'un flux RSS externe. Pour plus d'articles, '',
      str ''consultez la section actualit'', [233], str ''s du site.</p>\<newline>'',
      str ''  </footer>\<newline></body>\<newline></html>\<newline>'']\<close>

definition generate_article_html ::
    "pydict \<Rightarrow> pystr \<Rightarrow> filesystem \<Rightarrow> (error + unit) \<times> filesystem" where
  "generate_article_html article_data file_path fs =
     (case map_of article_data ''title'' of None \<Rightarrow> (Inl (KeyError ''title''), fs) | Some title \<Rightarrow>
      case map_of article_data ''link'' of None \<Rightarrow> (Inl (KeyError ''link''), fs) | Some link \<Rightarrow>
      case map_of article_data ''description'' of
        None \<Rightarrow> (Inl (KeyError ''description''), fs) | Some description \<Rightarrow>
      case map_of article_data ''published'' of
        None \<Rightarrow> (Inl (KeyError ''published''), fs) | Some published \<Rightarrow>
      (case makedirs (dirname file_path) fs of
         (Inl e, fs1) \<Rightarrow> (Inl e, fs1)
       | (Inr _, fs1) \<Rightarrow>
           open_write file_path (article_content title link description published) fs1))"

subsection \<open>\<open>update_index\<close>\<close>

definition section_marker :: pystr where
  \<open>section_marker = str ''<section id="derniers-articles"''\<close>

definition article_link :: "pystr \<Rightarrow> pystr \<Rightarrow> pystr" where
  \<open>article_link article_filename article_title =
     str ''    <li><a href="'' @ path_join NEWS_DIR article_filename @ str ''">''
     @ article_title @ str ''</a></li>\<newline>''\<close>

definition section_html :: "pystr \<Rightarrow> pystr list" where
  \<open>section_html link_line =
     [str ''  <section id="derniers-articles">\<newline>'',
      str ''    <h2>Derniers articles</h2>\<newline>'',
      str ''    <ul>\<newline>'',
      link_line,
      str ''    </ul>\<newline>'',
      str ''  </section>\<newline>'']\<close>

text \<open>
  The part of \<open>update_index\<close> between \<open>readlines\<close> and \<open>writelines\<close>: the list
  \<open>lines\<close> after \<open>lines.insert(insert_idx, article_link)\<close> or after the slice assignment
  \<open>lines[insert_idx:insert_idx] = section_html\<close>.
\<close>

definition update_lines :: "pystr \<Rightarrow> pystr \<Rightarrow> pystr list \<Rightarrow> pystr list" where
  "update_lines article_filename article_title lines =
     (case first_index (sublist section_marker) lines of
        Some start_idx \<Rightarrow>
          (let insert_idx =
                 (case first_index (sublist (str ''<ul'')) (drop start_idx lines) of
                    Some k \<Rightarrow> start_idx + k + 1
                  | None \<Rightarrow> start_idx + 1)
           in take insert_idx lines @ [article_link article_filename article_title]
              @ drop insert_idx lines)
      | None \<Rightarrow>
          (let insert_idx =
                 (case first_index (sublist (str ''</main>'')) lines of
                    Some j \<Rightarrow> j
                  | None \<Rightarrow> length lines)
           in take insert_idx lines @ section_html (article_link article_filename article_title)
              @ drop insert_idx lines))"

definition update_index :: "pystr \<Rightarrow> pystr \<Rightarrow> filesystem \<Rightarrow> (error + unit) \<times> filesystem" where
  "update_index article_filename article_title fs =
     (if \<not> path_exists fs INDEX_FILE then (Inr (), fs)
      else case open_read INDEX_FILE fs of
             Inl e \<Rightarrow> (Inl e, fs)
           | Inr text \<Rightarrow>
               open_write INDEX_FILE
                 (concat (update_lines article_filename article_title (readlines text))) fs)"

subsection \<open>\<open>main\<close>\<close>

definition msg_no_article :: pystr where
  \<open>msg_no_article =
     str ''Aucun article n'a '' @ [233] @ str ''t'' @ [233] @ str '' trouv'' @ [233]
     @ str '' dans le flux RSS.''\<close>

definition msg_added :: "pystr \<Rightarrow> pystr" where
  "msg_added filename = str ''Article ajout'' @ [233] @ str '' : '' @ filename"

definition dated_filename :: "env \<Rightarrow> pystr \<Rightarrow> pystr" where
  "dated_filename w title =
     (let date_str = isoformat (today w);
          safe_title = take 50 (join (str ''-'') (split_ws (str_lower w title)))
      in date_str @ str ''-'' @ safe_title @ str ''.html'')"

text \<open>
  A run returns how it ended (\<open>Inl\<close> an uncaught exception), the file system it leaves
  and the lines it printed.
\<close>

definition main :: "env \<Rightarrow> filesystem \<Rightarrow> (error + unit) \<times> filesystem \<times> pystr list" where
  "main w fs =
     (case fetch_latest_entry w of
        None \<Rightarrow> (Inr (), fs, [msg_no_article])
      | Some article \<Rightarrow>
          if article = [] then (Inr (), fs, [msg_no_article])
          else
            (case map_of article ''title'' of
               None \<Rightarrow> (Inl (KeyError ''title''), fs, [])
             | Some title \<Rightarrow>
                 (let filename = dated_filename w title;
                      article_path = path_join NEWS_DIR filename
                  in case generate_article_html article article_path fs of
                       (Inl e, fs1) \<Rightarrow> (Inl e, fs1, [])
                     | (Inr _, fs1) \<Rightarrow>
                         (case update_index filename title fs1 of
                            (Inl e, fs2) \<Rightarrow> (Inl e, fs2, [])
                          | (Inr _, fs2) \<Rightarrow> (Inr (), fs2, [msg_added filename])))))"

section \<open>Example inputs\<close>

text \<open>A feed with the given entries, read on 6 May 2024; the library tables are not
  reached by the ASCII examples below.\<close>

definition env_of :: "pydict list \<Rightarrow> env" where
  "env_of entries =
     \<lparr>feed_entries = entries, utcnow_isoformat = str ''2024-05-06T07:08:09'',
      today = \<lparr>year = 2024, month = 5, day = 6\<rparr>,
      charref_sub = (\<lambda>s. s), unicode_lower = (\<lambda>s. s)\<rparr>"

text \<open>A repository that holds only \<open>index.html\<close>, with the given text.\<close>

definition site :: "pystr \<Rightarrow> filesystem" where
  "site text = [INDEX_FILE \<mapsto> File text]"

definition ex_article :: pydict where
  "ex_article = [(''title'', str ''Titre <b>''), (''link'', str ''http://example.org/?a=1&b=2''),
                 (''description'', str ''R&D''), (''published'', str ''Mon, 06 May 2024'')]"

text \<open>Three index pages: with a list in the section, with a section that has no list,
  and with no section.\<close>

definition ex_index_with_list :: pystr where
  \<open>ex_index_with_list =
     str ''<main>\<newline><section id="derniers-articles">\<newline><ul>\<newline><li>old</li>\<newline></ul>\<newline></section>\<newline></main>\<newline>''\<close>

definition ex_index_no_list :: pystr where
  \<open>ex_index_no_list = str ''<section id="derniers-articles">\<newline></section>\<newline>''\<close>

definition ex_index_plain :: pystr where
  \<open>ex_index_plain = str ''<main>\<newline><p>Bienvenue</p>\<newline></main>\<newline>''\<close>

text \<open>An index page whose last line has no newline.\<close>

definition ex_index_unterminated :: pystr where
  \<open>ex_index_unterminated = str ''<p>Bienvenue</p>''\<close>

text \<open>An index page that ends without a newline after its last tag, one with CR LF line
  ends, and one whose list starts on the section line.\<close>

definition ex_index_unclosed :: pystr where
  \<open>ex_index_unclosed = str ''<main>\<newline><p>Bienvenue</p>\<newline></main>\<newline></html>''\<close>

definition ex_index_crlf :: pystr where
  \<open>ex_index_crlf = str ''<main>'' @ [13, 10] @ str ''</main>'' @ [13, 10]\<close>

definition ex_index_inline_list :: pystr where
  \<open>ex_index_inline_list =
     str ''<section id="derniers-articles"><ul><li><a href="news/old.html">Old</a></li>\<newline>''
     @ str ''</ul></section>\<newline>''\<close>

section \<open>Auxiliary facts\<close>

subsection \<open>The first index a loop stops at\<close>

lemma first_index_Some_iff:
  "first_index P xs = Some i \<longleftrightarrow> i < length xs \<and> P (xs ! i) \<and> (\<forall>j<i. \<not> P (xs ! j))"
proof (induction xs arbitrary: i)
  case Nil
  then show ?case by simp
next
  case (Cons x xs)
  show ?case
  proof (cases "P x")
    case True
    then show ?thesis by (cases i) auto
  next
    case False
    show ?thesis
    proof (cases i)
      case 0
      with False show ?thesis by auto
    next
      case (Suc k)
      have "(\<forall>j<Suc k. \<not> P ((x # xs) ! j)) \<longleftrightarrow> (\<forall>j<k. \<not> P (xs ! j))"
        using False by (auto simp: less_Suc_eq_0_disj)
      with Suc False Cons.IH [of k] show ?thesis by auto
    qed
  qed
qed

lemma first_index_None_iff: "first_index P xs = None \<longleftrightarrow> (\<forall>x\<in>set xs. \<not> P x)"
  by (induction xs) auto

subsection \<open>Components and walks\<close>

lemma components_nonempty: "components p \<noteq> []"
  by (cases p) (auto split: list.splits)

lemma components_no_sep: "47 \<notin> set b \<Longrightarrow> components b = [b]"
  by (induction b) auto


lemma utf8_length_append: "utf8_length (a @ b) = utf8_length a + utf8_length b"
  by (simp add: utf8_length_def)

lemma rstrip_sep_id: "p \<noteq> [] \<Longrightarrow> last p \<noteq> 47 \<Longrightarrow> rstrip_sep p = p"
proof -
  assume "p \<noteq> []" "last p \<noteq> 47"
  then obtain c r where "rev p = c # r" "c \<noteq> 47"
    by (cases "rev p") (auto simp: last_rev [symmetric] hd_rev)
  then have "dropWhile (\<lambda>c. c = 47) (rev p) = rev p" by simp
  then show ?thesis by (simp add: rstrip_sep_def)
qed

lemma rstrip_sep_fixed: "rstrip_sep p = p \<Longrightarrow> p = [] \<or> last p \<noteq> 47"
proof (cases "rev p")
  case Nil
  then show ?thesis by simp
next
  case (Cons c r)
  assume fixed: "rstrip_sep p = p"
  show ?thesis
  proof (cases "c = 47")
    case True
    with Cons have "length (dropWhile (\<lambda>c. c = 47) (rev p)) \<le> length r"
      by (simp add: length_dropWhile_le)
    moreover from fixed have "length (dropWhile (\<lambda>c. c = 47) (rev p)) = length p"
      by (metis length_rev rstrip_sep_def)
    moreover from Cons have "length p = Suc (length r)"
      by (metis length_Cons length_rev)
    ultimately show ?thesis by simp
  next
    case False
    with Cons show ?thesis by (metis hd_rev list.sel(1) rev.simps(1) rev_rev_ident)
  qed
qed

text \<open>A walk sees only directories, so it is not disturbed by writing an entry that was
  not one.\<close>

lemma node_at_upd:
  assumes "node_at fs cur = Some Dir" and "fs K \<noteq> Some Dir"
  shows "node_at (fs(K \<mapsto> v)) cur = Some Dir"
  using assms by (auto simp: node_at_def)

lemma walk_mono:
  assumes "walk fs cur cs = Inr k"
    and "\<And>names. node_at fs names = Some Dir \<Longrightarrow> node_at fs2 names = Some Dir"
  shows "walk fs2 cur cs = Inr k"
  using assms(1)
proof (induction cs arbitrary: cur)
  case Nil
  then show ?case by simp
next
  case (Cons c cs)
  from Cons.prems have d: "node_at fs cur = Some Dir"
    by (auto split: option.splits node.splits)
  then have d2: "node_at fs2 cur = Some Dir" by (rule assms(2))
  from Cons.prems d have len: "\<not> 255 < utf8_length c"
    and rest: "walk fs (step_to cur c) cs = Inr k"
    by (auto split: if_splits)
  from Cons.IH [OF rest] have "walk fs2 (step_to cur c) cs = Inr k" .
  with d2 len show ?case by simp
qed

lemma walk_upd:
  assumes "walk fs cur cs = Inr k" and "fs K \<noteq> Some Dir"
  shows "walk (fs(K \<mapsto> v)) cur cs = Inr k"
  using assms(1)
proof (rule walk_mono)
  fix names
  assume "node_at fs names = Some Dir"
  then show "node_at (fs(K \<mapsto> v)) names = Some Dir"
    using assms(2) by (rule node_at_upd)
qed

lemma walk_append:
  "walk fs cur (xs @ ys) = (case walk fs cur xs of Inl e \<Rightarrow> Inl e | Inr k \<Rightarrow> walk fs k ys)"
  by (induction xs arbitrary: cur) (auto split: option.splits node.splits)

lemma open_write_read_back:
  assumes "open_write p text fs = (Inr (), fs')"
  shows "open_read p fs' = Inr text"
proof -
  define name where "name = last (components p)"
  from assms have chk: "path_check p = None"
    by (auto simp: open_write_def split: option.splits)
  from assms chk have strip: "rstrip_sep p = p"
    by (auto simp: open_write_def Let_def split: sum.splits if_splits)
  from assms chk strip obtain parent where
    par: "walk_parent fs p = Inr parent"
    and nm: "name \<noteq> str ''.''" "name \<noteq> str ''..''" "\<not> 255 < utf8_length name"
    and nodir: "node_at fs (parent @ [name]) \<noteq> Some Dir"
    and fs': "fs' = fs(key_of (parent @ [name]) \<mapsto> File text)"
    by (auto simp: open_write_def Let_def name_def split: sum.splits if_splits)
  from chk have "p \<noteq> []" by (auto simp: path_check_def split: if_splits)
  with strip have "last p \<noteq> 47" using rstrip_sep_fixed by blast
  have comps: "components p = butlast (components p) @ [name]"
    by (simp add: name_def components_nonempty)
  from par have w: "walk fs [] (butlast (components p)) = Inr parent"
    and pd: "node_at fs parent = Some Dir"
    by (auto simp: walk_parent_def split: sum.splits option.splits node.splits)
  from nodir have K: "fs (key_of (parent @ [name])) \<noteq> Some Dir"
    by (simp add: node_at_def)
  have ne: "name \<noteq> []"
  proof
    assume "name = []"
    have "last (components q) = [] \<Longrightarrow> q = [] \<or> last q = 47" for q
      by (induction q) (auto simp: components_nonempty split: list.splits if_splits)
    with \<open>name = []\<close> \<open>p \<noteq> []\<close> \<open>last p \<noteq> 47\<close> show False by (auto simp: name_def)
  qed
  from w K have w': "walk fs' [] (butlast (components p)) = Inr parent"
    unfolding fs' by (rule walk_upd)
  from pd K have pd': "node_at fs' parent = Some Dir"
    unfolding fs' by (rule node_at_upd)
  have "walk fs' [] (components p) = walk fs' parent [name]"
    by (subst comps) (simp add: walk_append w')
  also have "\<dots> = Inr (parent @ [name])"
    using pd' nm ne by (simp add: step_to_def)
  finally have "walk fs' [] (components p) = Inr (parent @ [name])" .
  moreover have "node_at fs' (parent @ [name]) = Some (File text)"
    by (simp add: fs' node_at_def)
  ultimately show ?thesis using chk by (simp add: open_read_def stat_def)
qed

subsection \<open>Reading and writing the index\<close>

lemma stat_INDEX_FILE:
  "stat fs INDEX_FILE = (case fs INDEX_FILE of None \<Rightarrow> Inl FileNotFoundError | Some n \<Rightarrow> Inr n)"
  by (simp add: stat_def path_check_def unencodable_def utf8_length_def node_at_def key_of_def
      step_to_def INDEX_FILE_def str_def)

lemma open_write_INDEX_FILE:
  "fs INDEX_FILE \<noteq> Some Dir \<Longrightarrow> open_write INDEX_FILE text fs = (Inr (), fs(INDEX_FILE \<mapsto> File text))"
  by (simp add: open_write_def path_check_def unencodable_def utf8_length_def rstrip_sep_def
      walk_parent_def node_at_def key_of_def INDEX_FILE_def str_def)

lemma update_index_file:
  assumes "fs INDEX_FILE = Some (File text)"
  shows "update_index fn title fs =
           (Inr (), fs(INDEX_FILE \<mapsto> File (concat (update_lines fn title (readlines text)))))"
  using assms
  by (simp add: update_index_def path_exists_def open_read_def stat_INDEX_FILE open_write_INDEX_FILE)

lemma path_exists_INDEX_FILE: "path_exists fs INDEX_FILE \<longleftrightarrow> fs INDEX_FILE \<noteq> None"
  by (simp add: path_exists_def stat_INDEX_FILE split: option.splits)

subsection \<open>The news directory\<close>

lemma dirname_no_sep: "47 \<notin> set d \<Longrightarrow> dirname d = []"
proof -
  assume "47 \<notin> set d"
  then have "dropWhile (\<lambda>c. c \<noteq> 47) (rev d) = []" by auto
  then show ?thesis by (simp add: dirname_def)
qed

lemma basename_no_sep: "47 \<notin> set d \<Longrightarrow> basename d = d"
proof -
  assume "47 \<notin> set d"
  then have "takeWhile (\<lambda>c. c \<noteq> 47) (rev d) = rev d" by auto
  then show ?thesis by (simp only: basename_def rev_rev_ident)
qed

lemma path_check_proper: "proper_name d \<Longrightarrow> path_check d = None"
  by (simp add: proper_name_def path_check_def)

lemma mkdir_name:
  assumes "proper_name d" and "fs d = None"
  shows "mkdir d fs = (Inr (), fs(d \<mapsto> Dir))"
proof -
  from assms(1) have d: "d \<noteq> []" "47 \<notin> set d" "d \<noteq> str ''.''" "d \<noteq> str ''..''"
    "\<not> 255 < utf8_length d"
    by (auto simp: proper_name_def)
  from d(1,2) have "last d \<noteq> 47" by (metis last_in_set)
  with d(1) have strip: "rstrip_sep d = d" by (rule rstrip_sep_id)
  from d(2) have comps: "components d = [d]" by (rule components_no_sep)
  have par: "walk_parent fs d = Inr []"
    by (simp add: walk_parent_def comps node_at_def)
  from assms(2) have "node_at fs ([] @ [d]) = None"
    by (simp add: node_at_def key_of_def)
  with d par strip comps path_check_proper [OF assms(1)] show ?thesis
    by (simp add: mkdir_def key_of_def)
qed

lemma makedirs_name:
  assumes "proper_name d" and "fs d = None"
  shows "makedirs d fs = (Inr (), fs(d \<mapsto> Dir))"
proof -
  from assms(1) have "47 \<notin> set d" "d \<noteq> []" by (auto simp: proper_name_def)
  then have "makedirs_head d = []"
    by (simp add: makedirs_head_def basename_no_sep dirname_no_sep)
  then have "makedirs d fs = mkdir_exist_ok d fs"
    by (subst makedirs.simps) simp
  with mkdir_name [of d fs] assms show ?thesis by (simp add: mkdir_exist_ok_def)
qed




subsection \<open>Unfolding a run on a concrete input\<close>

lemmas fs_eval =
  stat_def path_exists_def isdir_def open_read_def open_write_def mkdir_def mkdir_exist_ok_def
  walk_parent_def path_check_def unencodable_def utf8_length_def rstrip_sep_def node_at_def
  key_of_def step_to_def proper_name_def is_OSError_def makedirs_head_def makedirs_tail_def
  dirname_def basename_def

lemmas run_eval =
  main_def fetch_latest_entry_def env_of_def dict_get_def html_unescape_def
  dated_filename_def isoformat_def digit_def str_lower_def ascii_lower_def split_ws_def
  is_space_def path_join_def NEWS_DIR_def generate_article_html_def update_index_def
  INDEX_FILE_def Let_def

lemmas index_eval =
  update_index_def path_exists_INDEX_FILE open_read_def stat_INDEX_FILE open_write_INDEX_FILE
  site_def readlines_def update_lines_def section_marker_def section_html_def article_link_def
  path_join_def NEWS_DIR_def sublist_code

subsection \<open>The pieces of the page\<close>

lemma mem_sublist_concat:
  assumes "x \<in> set xss"
  shows "sublist x (concat xss)"
proof -
  from assms obtain as bs where "xss = as @ x # bs" by (auto dest: split_list)
  then have "concat xss = concat as @ x @ concat bs" by simp
  then show ?thesis by (metis sublist_appendI)
qed

lemma article_content_sublists:
  "sublist title (article_content title link description published)"
  "sublist link (article_content title link description published)"
  "sublist description (article_content title link description published)"
  "sublist published (article_content title link description published)"
  unfolding article_content_def by (rule mem_sublist_concat, simp)+

subsection \<open>Where \<open>update_lines\<close> inserts\<close>

lemma update_lines_with_section:
  assumes "i < length L" "sublist section_marker (L ! i)" "\<forall>k<i. \<not> sublist section_marker (L ! k)"
  shows "\<exists>n. update_lines fn title L = take n L @ [article_link fn title] @ drop n L
     \<and> ((\<exists>j. i \<le> j \<and> j < length L \<and> sublist (str ''<ul'') (L ! j)
              \<and> (\<forall>m. i \<le> m \<and> m < j \<longrightarrow> \<not> sublist (str ''<ul'') (L ! m)) \<and> n = j + 1)
         \<or> ((\<forall>m. i \<le> m \<and> m < length L \<longrightarrow> \<not> sublist (str ''<ul'') (L ! m)) \<and> n = i + 1))"
proof -
  from assms have start: "first_index (sublist section_marker) L = Some i"
    by (simp add: first_index_Some_iff)
  show ?thesis
  proof (cases "first_index (sublist (str ''<ul'')) (drop i L)")
    case None
    then have "\<forall>x\<in>set (drop i L). \<not> sublist (str ''<ul'') x"
      by (simp add: first_index_None_iff)
    then have no: "\<forall>m. i \<le> m \<and> m < length L \<longrightarrow> \<not> sublist (str ''<ul'') (L ! m)"
      by (metis Cons_nth_drop_Suc drop_all list.set_intros(1) not_less set_drop_subset_set_drop subsetD)
    from start None have "update_lines fn title L
        = take (i + 1) L @ [article_link fn title] @ drop (i + 1) L"
      by (simp add: update_lines_def)
    with no show ?thesis by blast
  next
    case (Some k)
    then have k: "k < length L - i" "sublist (str ''<ul'') (drop i L ! k)"
      "\<forall>j<k. \<not> sublist (str ''<ul'') (drop i L ! j)"
      by (simp_all add: first_index_Some_iff)
    from k(1) k(2) have at: "i + k < length L" "sublist (str ''<ul'') (L ! (i + k))"
      by simp_all
    have before: "\<forall>m. i \<le> m \<and> m < i + k \<longrightarrow> \<not> sublist (str ''<ul'') (L ! m)"
    proof (intro allI impI)
      fix m assume m: "i \<le> m \<and> m < i + k"
      then have "m - i < k" by arith
      with k(3) have "\<not> sublist (str ''<ul'') (drop i L ! (m - i))" by blast
      moreover from m at(1) have "drop i L ! (m - i) = L ! m" by simp
      ultimately show "\<not> sublist (str ''<ul'') (L ! m)" by simp
    qed
    from start Some have "update_lines fn title L
        = take (i + k + 1) L @ [article_link fn title] @ drop (i + k + 1) L"
      by (simp add: update_lines_def)
    with at before show ?thesis
      by (intro exI [of _ "i + k + 1"] conjI disjI1 exI [of _ "i + k"]) simp_all
  qed
qed

lemma update_lines_without_section:
  assumes "\<forall>l\<in>set L. \<not> sublist section_marker l"
  shows "\<exists>n. update_lines fn title L
            = take n L @ section_html (article_link fn title) @ drop n L
     \<and> ((n < length L \<and> sublist (str ''</main>'') (L ! n)
              \<and> (\<forall>m<n. \<not> sublist (str ''</main>'') (L ! m)))
         \<or> (n = length L \<and> (\<forall>l\<in>set L. \<not> sublist (str ''</main>'') l)))"
proof -
  from assms have start: "first_index (sublist section_marker) L = None"
    by (simp add: first_index_None_iff)
  show ?thesis
  proof (cases "first_index (sublist (str ''</main>'')) L")
    case None
    with start have "update_lines fn title L
        = take (length L) L @ section_html (article_link fn title) @ drop (length L) L"
      by (simp add: update_lines_def)
    moreover from None have "\<forall>l\<in>set L. \<not> sublist (str ''</main>'') l"
      by (simp add: first_index_None_iff)
    ultimately show ?thesis by blast
  next
    case (Some j)
    with start have "update_lines fn title L
        = take j L @ section_html (article_link fn title) @ drop j L"
      by (simp add: update_lines_def)
    moreover from Some have "j < length L \<and> sublist (str ''</main>'') (L ! j)
        \<and> (\<forall>m<j. \<not> sublist (str ''</main>'') (L ! m))"
      by (simp add: first_index_Some_iff)
    ultimately show ?thesis by blast
  qed
qed

lemma readlines_with_list: "readlines ex_index_with_list =
  [str ''<main>\<newline>'', str ''<section id=\"derniers-articles\">\<newline>'', str ''<ul>\<newline>'',
   str ''<li>old</li>\<newline>'', str ''</ul>\<newline>'', str ''</section>\<newline>'', str ''</main>\<newline>'']"
  by (simp add: readlines_def ex_index_with_list_def str_def)

lemma update_lines_with_list:
  "update_lines (str ''a.html'') (str ''T'') (readlines ex_index_with_list) =
  [str ''<main>\<newline>'', str ''<section id=\"derniers-articles\">\<newline>'', str ''<ul>\<newline>'',
   str ''    <li><a href=\"news/a.html\">T</a></li>\<newline>'',
   str ''<li>old</li>\<newline>'', str ''</ul>\<newline>'', str ''</section>\<newline>'', str ''</main>\<newline>'']"
  unfolding readlines_with_list
  by (simp add: update_lines_def section_marker_def str_def sublist_code article_link_def path_join_def NEWS_DIR_def)

lemma readlines_plain: "readlines ex_index_plain
     = [str ''<main>\<newline>'', str ''<p>Bienvenue</p>\<newline>'', str ''</main>\<newline>'']"
  by (simp add: readlines_def ex_index_plain_def str_def)

subsection \<open>Newline translation and line splitting\<close>

lemma translate_newlines_Cons:
  "c \<noteq> 13 \<Longrightarrow> translate_newlines (c # cs) = c # translate_newlines cs"
  by (cases cs) simp_all

lemma translate_newlines_no_cr: "13 \<notin> set (translate_newlines s)"
  by (induction s rule: translate_newlines.induct) auto

lemma translate_newlines_append_left:
  "13 \<notin> set a \<Longrightarrow> translate_newlines (a @ b) = a @ translate_newlines b"
  by (induction a) (auto simp: translate_newlines_Cons)

lemma translate_newlines_id: "13 \<notin> set s \<Longrightarrow> translate_newlines s = s"
  using translate_newlines_append_left [of s "[]"] by simp

lemma translate_newlines_append_right:
  "a \<noteq> [] \<Longrightarrow> last a = 10 \<Longrightarrow> 13 \<notin> set b
     \<Longrightarrow> translate_newlines (a @ b) = translate_newlines a @ b"
proof (induction a rule: translate_newlines.induct)
  case 1
  then show ?case by simp
next
  case (2 c)
  then show ?case by (simp add: translate_newlines_Cons translate_newlines_id)
next
  case (3 c d cs)
  show ?case
  proof (cases "cs = []")
    case True
    with 3 show ?thesis
      by (auto simp: translate_newlines_Cons translate_newlines_id)
  next
    case False
    with 3 show ?thesis by auto
  qed
qed

lemma translate_newlines_last:
  "s \<noteq> [] \<Longrightarrow> last s = 10 \<or> last s = 13
     \<Longrightarrow> translate_newlines s \<noteq> [] \<and> last (translate_newlines s) = 10"
proof (induction s rule: translate_newlines.induct)
  case 1
  then show ?case by simp
next
  case (2 c)
  then show ?case by auto
next
  case (3 c d cs)
  show ?case
  proof (cases "cs = []")
    case True
    with 3 show ?thesis by auto
  next
    case False
    with 3 show ?thesis by auto
  qed
qed

lemma split_lines_Nil_iff: "split_lines s = [] \<longleftrightarrow> s = []"
  by (cases s) (auto split: list.splits)

lemma concat_split_lines: "concat (split_lines s) = s"
  by (induction s) (auto split: list.splits)

lemma split_lines_append:
  "a = [] \<or> last a = 10 \<Longrightarrow> split_lines (a @ b) = split_lines a @ split_lines b"
proof (induction a)
  case Nil
  then show ?case by simp
next
  case (Cons c a)
  show ?case
  proof (cases "a = []")
    case True
    with Cons.prems show ?thesis by auto
  next
    case False
    with Cons.prems have "last a = 10" by simp
    with Cons.IH have ih: "split_lines (a @ b) = split_lines a @ split_lines b" by simp
    from False obtain l ls where "split_lines a = l # ls"
      by (cases "split_lines a") (auto simp: split_lines_Nil_iff)
    with ih show ?thesis by simp
  qed
qed

lemma split_lines_complete_line: "complete_line l \<Longrightarrow> split_lines l = [l]"
proof (induction l)
  case Nil
  then show ?case by (simp add: complete_line_def)
next
  case (Cons c l)
  show ?case
  proof (cases "l = []")
    case True
    with Cons.prems show ?thesis by (simp add: complete_line_def)
  next
    case False
    with Cons.prems have "complete_line l" "c \<noteq> 10"
      by (auto simp: complete_line_def)
    with Cons.IH show ?thesis by simp
  qed
qed

lemma split_lines_complete:
  "s = [] \<or> last s = 10 \<Longrightarrow> \<forall>l\<in>set (split_lines s). complete_line l"
proof (induction s)
  case Nil
  then show ?case by simp
next
  case (Cons c s)
  show ?case
  proof (cases "s = []")
    case True
    with Cons.prems show ?thesis by (simp add: complete_line_def)
  next
    case False
    with Cons.prems Cons.IH have ih: "\<forall>l\<in>set (split_lines s). complete_line l" by simp
    from False obtain l ls where ls: "split_lines s = l # ls"
      by (cases "split_lines s") (auto simp: split_lines_Nil_iff)
    with ih have "complete_line l" by simp
    then have "c \<noteq> 10 \<Longrightarrow> complete_line (c # l)"
      by (auto simp: complete_line_def)
    with ih ls show ?thesis by (auto simp: complete_line_def)
  qed
qed

lemma split_lines_concat_complete:
  "\<forall>l\<in>set ls. complete_line l \<Longrightarrow> split_lines (concat ls @ rest) = ls @ split_lines rest"
proof (induction ls)
  case Nil
  then show ?case by simp
next
  case (Cons l ls)
  then have l: "complete_line l" by simp
  then have "split_lines (l @ (concat ls @ rest)) = split_lines l @ split_lines (concat ls @ rest)"
    by (intro split_lines_append) (simp add: complete_line_def)
  with Cons l show ?case by (simp add: split_lines_complete_line)
qed

lemma subseq_insert_middle: "subseq xs (take n xs @ ys @ drop n xs)"
proof -
  have "subseq (drop n xs) (ys @ drop n xs)"
    by (rule subseq_drop_many) simp
  then have "subseq (take n xs @ drop n xs) (take n xs @ ys @ drop n xs)"
    by (simp only: subseq_append')
  then show ?thesis by (simp only: append_take_drop_id)
qed

lemma update_lines_shape:
  "\<exists>n X. update_lines fn title L = take n L @ X @ drop n L \<and> concat X \<noteq> [] \<and> last (concat X) = 10"
proof (cases "first_index (sublist section_marker) L")
  case None
  define n where "n = (case first_index (sublist (str ''</main>'')) L of Some j \<Rightarrow> j | None \<Rightarrow> length L)"
  from None have "update_lines fn title L
      = take n L @ section_html (article_link fn title) @ drop n L"
    by (simp add: update_lines_def n_def Let_def)
  moreover have "concat (section_html (article_link fn title)) \<noteq> []"
    "last (concat (section_html (article_link fn title))) = 10"
    by (simp_all add: section_html_def str_def)
  ultimately show ?thesis by blast
next
  case (Some i)
  define n where "n = (case first_index (sublist (str ''<ul'')) (drop i L) of
                         Some k \<Rightarrow> i + k + 1 | None \<Rightarrow> i + 1)"
  from Some have "update_lines fn title L = take n L @ [article_link fn title] @ drop n L"
    by (simp add: update_lines_def n_def Let_def)
  moreover have "concat [article_link fn title] \<noteq> []" "last (concat [article_link fn title]) = 10"
    by (simp_all add: article_link_def str_def)
  ultimately show ?thesis by blast
qed

lemma split_lines_butlast_complete: "\<forall>l\<in>set (butlast (split_lines s)). complete_line l"
proof (induction s)
  case Nil
  then show ?case by simp
next
  case (Cons c s)
  show ?case
  proof (cases "split_lines s")
    case Nil
    then show ?thesis by (simp add: complete_line_def)
  next
    case (Cons l ls)
    show ?thesis
    proof (cases "c = 10")
      case True
      with Cons.IH show ?thesis by (simp add: complete_line_def)
    next
      case False
      show ?thesis
      proof (cases "ls = []")
        case True
        with False Cons show ?thesis by simp
      next
        case nonempty: False
        with Cons.IH Cons have "complete_line l" by simp
        with False have "complete_line (c # l)" by (auto simp: complete_line_def)
        with Cons.IH Cons False nonempty show ?thesis by simp
      qed
    qed
  qed
qed

lemma take_split_lines_complete:
  assumes "n < length (split_lines s)"
  shows "\<forall>l\<in>set (take n (split_lines s)). complete_line l"
proof -
  from assms have "take n (split_lines s) = take n (butlast (split_lines s))"
    by (simp add: take_butlast)
  then have "set (take n (split_lines s)) \<subseteq> set (butlast (split_lines s))"
    by (metis set_take_subset)
  with split_lines_butlast_complete show ?thesis by blast
qed

lemma split_lines_concat_drop:
  assumes "\<forall>l\<in>set (take n (split_lines s)). complete_line l"
  shows "split_lines (concat (drop n (split_lines s))) = drop n (split_lines s)"
proof -
  define L where "L = split_lines s"
  have "s = concat (take n L) @ concat (drop n L)"
    by (metis L_def append_take_drop_id concat_append concat_split_lines)
  then have "L = split_lines (concat (take n L) @ concat (drop n L))"
    by (simp add: L_def)
  also have "\<dots> = take n L @ split_lines (concat (drop n L))"
    using assms unfolding L_def [symmetric] by (rule split_lines_concat_complete)
  finally have "L = take n L @ split_lines (concat (drop n L))" .
  then have "take n L @ drop n L = take n L @ split_lines (concat (drop n L))"
    by (simp only: append_take_drop_id)
  then have "drop n L = split_lines (concat (drop n L))"
    by (simp only: same_append_eq)
  then show ?thesis unfolding L_def by simp
qed

lemma readlines_after_insert:
  assumes head: "\<forall>l\<in>set (take n (readlines text)). complete_line l"
    and X: "concat X \<noteq> []" "last (concat X) = 10"
  shows "\<exists>Y. readlines (concat (take n (readlines text) @ X @ drop n (readlines text)))
           = take n (readlines text) @ Y @ drop n (readlines text)"
proof -
  define T where "T = translate_newlines text"
  define L where "L = split_lines T"
  have L: "readlines text = L" by (simp add: readlines_def L_def T_def)
  have "set (concat L) = set T" by (simp add: L_def concat_split_lines)
  then have no_cr: "13 \<notin> set (concat L)" by (simp add: T_def translate_newlines_no_cr)
  have "set (take n L) \<subseteq> set L" "set (drop n L) \<subseteq> set L"
    by (simp_all add: set_take_subset set_drop_subset)
  with no_cr have pre: "13 \<notin> set (concat (take n L))" and post: "13 \<notin> set (concat (drop n L))"
    by auto
  from head have complete: "\<forall>l\<in>set (take n L). complete_line l" by (simp add: L)
  define Y where "Y = split_lines (translate_newlines (concat X))"
  from X have tX: "translate_newlines (concat X) \<noteq> []" "last (translate_newlines (concat X)) = 10"
    using translate_newlines_last [of "concat X"] by simp_all
  have "translate_newlines (concat (take n L @ X @ drop n L))
      = concat (take n L) @ translate_newlines (concat X @ concat (drop n L))"
    using pre by (simp add: translate_newlines_append_left)
  also have "translate_newlines (concat X @ concat (drop n L))
      = translate_newlines (concat X) @ concat (drop n L)"
    using X post by (rule translate_newlines_append_right)
  finally have "readlines (concat (take n L @ X @ drop n L))
      = split_lines (concat (take n L) @ (translate_newlines (concat X) @ concat (drop n L)))"
    by (simp add: readlines_def)
  also have "\<dots> = take n L @ split_lines (translate_newlines (concat X) @ concat (drop n L))"
    using complete by (rule split_lines_concat_complete)
  also have "split_lines (translate_newlines (concat X) @ concat (drop n L))
      = Y @ split_lines (concat (drop n L))"
    unfolding Y_def using tX by (intro split_lines_append) simp
  also have "split_lines (concat (drop n L)) = drop n L"
    using complete unfolding L_def by (rule split_lines_concat_drop)
  finally show ?thesis unfolding L by blast
qed

section \<open>The feed fetcher\<close>

text \<open>
  C1. When the feed yields no entries, \<open>fetch_latest_entry\<close> returns \<open>None\<close> and \<open>main\<close>
  returns normally after printing one message; the file system it leaves is the one it
  found, so no article file is written and \<open>index.html\<close> is unchanged.
\<close>

theorem main_empty_feed_noop:
  assumes "feed_entries w = []"
  shows "fetch_latest_entry w = None \<and> main w fs = (Inr (), fs, [msg_no_article])"
  using assms by (simp add: fetch_latest_entry_def main_def)

theorem main_empty_feed_noop_witness:
  "feed_entries (env_of []) = [] \<and> fetch_latest_entry (env_of []) = None
   \<and> main (env_of []) (site (str ''<ul>'')) = (Inr (), site (str ''<ul>''), [msg_no_article])"
  using main_empty_feed_noop [of "env_of []" "site (str ''<ul>'')"] by (simp add: env_of_def)

text \<open>
  C2. When the feed has at least one entry, \<open>fetch_latest_entry\<close> returns a dictionary
  with the keys title, link, description and published, each read from the first entry
  only: the title and the description pass through \<open>html.unescape\<close>, the link defaults
  to the empty string and the publication date to the current UTC timestamp.
\<close>

theorem fetch_latest_entry_first:
  assumes "feed_entries w = entry # rest"
  shows "fetch_latest_entry w =
           Some [(''title'', html_unescape w (case map_of entry ''title'' of
                                               None \<Rightarrow> str ''Article sans titre'' | Some v \<Rightarrow> v)),
                 (''link'', case map_of entry ''link'' of None \<Rightarrow> [] | Some v \<Rightarrow> v),
                 (''description'', html_unescape w (case map_of entry ''description'' of
                                                      None \<Rightarrow> [] | Some v \<Rightarrow> v)),
                 (''published'', case map_of entry ''published'' of
                                   None \<Rightarrow> utcnow_isoformat w | Some v \<Rightarrow> v)]"
  using assms by (simp add: fetch_latest_entry_def dict_get_def)

theorem fetch_latest_entry_first_witness:
  "fetch_latest_entry
     (env_of [[(''title'', str ''Premier'')], [(''title'', str ''Second''), (''link'', str ''x'')]])
     = Some [(''title'', str ''Premier''), (''link'', []), (''description'', []),
             (''published'', str ''2024-05-06T07:08:09'')]"
  using fetch_latest_entry_first
    [of "env_of [[(''title'', str ''Premier'')], [(''title'', str ''Second''), (''link'', str ''x'')]]"
      "[(''title'', str ''Premier'')]" "[[(''title'', str ''Second''), (''link'', str ''x'')]]"]
  by (simp add: env_of_def html_unescape_def str_def)

text \<open>
  C3, as stated: the title of the returned dictionary is never empty. An entry whose
  title field is present and empty is returned with the empty title, because
  \<open>entry.get("title", default)\<close> uses the default for a missing key only.
\<close>

theorem empty_title_counterexample:
  "fetch_latest_entry (env_of [[(''title'', [])]])
     = Some [(''title'', []), (''link'', []), (''description'', []),
             (''published'', str ''2024-05-06T07:08:09'')]"
  by (simp add: fetch_latest_entry_def env_of_def dict_get_def html_unescape_def)

text \<open>
  C3, amended: when the first entry has no title field, the returned title is the
  non-empty default \<open>Article sans titre\<close>; a title field that is present is returned
  through \<open>html.unescape\<close>, hence unchanged when it holds no \<open>&\<close>.
\<close>

theorem title_default_when_absent:
  assumes "feed_entries w = entry # rest"
  shows "\<exists>article title. fetch_latest_entry w = Some article \<and> map_of article ''title'' = Some title
           \<and> (map_of entry ''title'' = None \<longrightarrow> title = str ''Article sans titre'' \<and> title \<noteq> [])
           \<and> (\<forall>t. map_of entry ''title'' = Some t \<longrightarrow> title = html_unescape w t)
           \<and> (\<forall>t. map_of entry ''title'' = Some t \<and> 38 \<notin> set t \<longrightarrow> title = t)"
proof -
  have "38 \<notin> set (str ''Article sans titre'')" by (simp add: str_def)
  then have "html_unescape w (str ''Article sans titre'') = str ''Article sans titre''"
    by (simp add: html_unescape_def)
  moreover have "str ''Article sans titre'' \<noteq> []" by (simp add: str_def)
  ultimately show ?thesis
    using assms by (auto simp: fetch_latest_entry_def dict_get_def html_unescape_def)
qed

theorem title_default_when_absent_witness:
  "\<exists>article. fetch_latest_entry (env_of [[(''link'', str ''x'')]]) = Some article
      \<and> map_of article ''title'' = Some (str ''Article sans titre'')"
  using title_default_when_absent [of "env_of [[(''link'', str ''x'')]]" "[(''link'', str ''x'')]" "[]"]
  by (auto simp: env_of_def)

section \<open>The page renderer\<close>

text \<open>
  C10. Whenever \<open>generate_article_html\<close> returns normally, the dictionary had the four
  keys and reading \<open>file_path\<close> back gives the filled template, in which the title, the
  publication date, the description and the link occur verbatim: nothing is escaped.
\<close>

theorem generate_article_html_verbatim:
  assumes "generate_article_html article_data file_path fs = (Inr (), fs')"
  shows "\<exists>title link description published.
           map_of article_data ''title'' = Some title \<and> map_of article_data ''link'' = Some link
           \<and> map_of article_data ''description'' = Some description
           \<and> map_of article_data ''published'' = Some published
           \<and> open_read file_path fs' = Inr (article_content title link description published)
           \<and> sublist title (article_content title link description published)
           \<and> sublist published (article_content title link description published)
           \<and> sublist description (article_content title link description published)
           \<and> sublist link (article_content title link description published)"
proof -
  from assms obtain title link description published fs1 where
    keys: "map_of article_data ''title'' = Some title" "map_of article_data ''link'' = Some link"
      "map_of article_data ''description'' = Some description"
      "map_of article_data ''published'' = Some published"
    and w: "open_write file_path (article_content title link description published) fs1
              = (Inr (), fs')"
    by (auto simp: generate_article_html_def split: option.splits prod.splits sum.splits)
  from w have "open_read file_path fs' = Inr (article_content title link description published)"
    by (rule open_write_read_back)
  with keys show ?thesis
    using article_content_sublists by blast
qed

theorem generate_article_html_verbatim_witness:
  "generate_article_html ex_article (str ''news/a.html'') Map.empty
       = (Inr (), [str ''news'' \<mapsto> Dir,
                   str ''news/a.html'' \<mapsto> File (article_content (str ''Titre <b>'')
                      (str ''http://example.org/?a=1&b=2'') (str ''R&D'') (str ''Mon, 06 May 2024''))])
   \<and> open_read (str ''news/a.html'')
         [str ''news'' \<mapsto> Dir,
          str ''news/a.html'' \<mapsto> File (article_content (str ''Titre <b>'')
                      (str ''http://example.org/?a=1&b=2'') (str ''R&D'') (str ''Mon, 06 May 2024''))]
       = Inr (article_content (str ''Titre <b>'')
                      (str ''http://example.org/?a=1&b=2'') (str ''R&D'') (str ''Mon, 06 May 2024''))
   \<and> sublist (str ''Titre <b>'') (article_content (str ''Titre <b>'')
                      (str ''http://example.org/?a=1&b=2'') (str ''R&D'') (str ''Mon, 06 May 2024''))
   \<and> sublist (str ''R&D'') (article_content (str ''Titre <b>'')
                      (str ''http://example.org/?a=1&b=2'') (str ''R&D'') (str ''Mon, 06 May 2024''))"
proof -
  have run: "generate_article_html ex_article (str ''news/a.html'') Map.empty
       = (Inr (), [str ''news'' \<mapsto> Dir,
                   str ''news/a.html'' \<mapsto> File (article_content (str ''Titre <b>'')
                      (str ''http://example.org/?a=1&b=2'') (str ''R&D'') (str ''Mon, 06 May 2024''))])"
    by (simp add: generate_article_html_def ex_article_def fs_eval makedirs_name str_def)
  from generate_article_html_verbatim [OF run] run show ?thesis
    by (auto simp: ex_article_def)
qed

section \<open>The index updater\<close>

text \<open>
  C7, first part. When \<open>index.html\<close> does not exist, \<open>update_index\<close> returns normally and
  leaves the file system as it found it: the index is not created and no file changes.
\<close>

theorem update_index_absent:
  assumes "\<not> path_exists fs INDEX_FILE"
  shows "update_index fn title fs = (Inr (), fs)"
  using assms by (simp add: update_index_def)

theorem update_index_absent_witness:
  "\<not> path_exists [NEWS_DIR \<mapsto> Dir] INDEX_FILE
   \<and> update_index (str ''a.html'') (str ''T'') [NEWS_DIR \<mapsto> Dir] = (Inr (), [NEWS_DIR \<mapsto> Dir])"
proof -
  have h: "\<not> path_exists [NEWS_DIR \<mapsto> Dir] INDEX_FILE"
    by (simp add: path_exists_INDEX_FILE) (simp add: NEWS_DIR_def INDEX_FILE_def str_def)
  from update_index_absent [OF h] h show ?thesis by simp
qed

text \<open>
  C7, last part as stated: the existence check on the output file is the only branching
  of the pipeline. Two runs on the same repository, in which \<open>index.html\<close> does not
  exist, take different paths: with an empty feed \<open>main\<close> returns early after printing
  its message, with one entry it writes the article page.
\<close>

theorem branch_on_empty_feed_counterexample:
  "\<not> path_exists Map.empty INDEX_FILE
   \<and> main (env_of []) Map.empty = (Inr (), Map.empty, [msg_no_article])
   \<and> main (env_of [[(''title'', str ''Bonjour'')]]) Map.empty
      = (Inr (),
         [str ''news'' \<mapsto> Dir,
          str ''news/2024-05-06-bonjour.html'' \<mapsto>
            File (article_content (str ''Bonjour'') [] [] (str ''2024-05-06T07:08:09''))],
         [msg_added (str ''2024-05-06-bonjour.html'')])"
  by (simp add: run_eval fs_eval makedirs_name str_def)

text \<open>
  C4, as stated: whenever a line holds the section marker, the link line is inserted
  right after the first following line that holds \<open><ul\<close>, so that it comes before every
  link listed earlier. In the first index below no line holds \<open><ul\<close>, and the link line
  is inserted right after the section line (the \<open>else\<close> of the \<open>for\<close> loop). In the second
  the section line itself holds \<open><ul\<close> and an earlier link; the new link line is inserted
  after that line, so the earlier link comes first.
\<close>

theorem insert_without_ul_counterexample:
  \<open>readlines ex_index_no_list
      = [str ''<section id="derniers-articles">\<newline>'', str ''</section>\<newline>'']
   \<and> sublist section_marker (str ''<section id="derniers-articles">\<newline>'')
   \<and> \<not> sublist (str ''<ul'') (str ''<section id="derniers-articles">\<newline>'')
   \<and> \<not> sublist (str ''<ul'') (str ''</section>\<newline>'')
   \<and> update_index (str ''a.html'') (str ''T'') (site ex_index_no_list)
      = (Inr (), site (str ''<section id="derniers-articles">\<newline>''
                       @ str ''    <li><a href="news/a.html">T</a></li>\<newline>''
                       @ str ''</section>\<newline>''))
   \<and> readlines ex_index_inline_list
      = [str ''<section id="derniers-articles"><ul><li><a href="news/old.html">Old</a></li>\<newline>'',
         str ''</ul></section>\<newline>'']
   \<and> update_index (str ''a.html'') (str ''T'') (site ex_index_inline_list)
      = (Inr (), site (str ''<section id="derniers-articles"><ul><li><a href="news/old.html">Old</a></li>\<newline>''
                       @ str ''    <li><a href="news/a.html">T</a></li>\<newline>''
                       @ str ''</ul></section>\<newline>''))\<close>
  by (simp add: index_eval ex_index_no_list_def ex_index_inline_list_def str_def)

text \<open>
  C4, amended. Let line \<open>i\<close> be the first that holds the section marker. The written
  index is the old list of lines with the link line inserted at position \<open>n\<close>, where
  \<open>n\<close> is just after the first line at or after \<open>i\<close> that holds \<open><ul\<close>, and just
  after line \<open>i\<close> when there is none. The lines before position \<open>n\<close>, among them the
  line that holds \<open><ul\<close>, stay before the new link line; the lines from position \<open>n\<close>
  on come after it.
\<close>

theorem update_index_existing_section:
  assumes "fs INDEX_FILE = Some (File text)" and "L = readlines text"
    and "i < length L" and "sublist section_marker (L ! i)"
    and "\<forall>k<i. \<not> sublist section_marker (L ! k)"
  shows "\<exists>n. update_index fn title fs
          = (Inr (), fs(INDEX_FILE \<mapsto> File (concat (take n L @ [article_link fn title] @ drop n L))))
     \<and> n \<le> length L
     \<and> ((\<exists>j. i \<le> j \<and> j < length L \<and> sublist (str ''<ul'') (L ! j)
              \<and> (\<forall>m. i \<le> m \<and> m < j \<longrightarrow> \<not> sublist (str ''<ul'') (L ! m)) \<and> n = j + 1)
         \<or> ((\<forall>m. i \<le> m \<and> m < length L \<longrightarrow> \<not> sublist (str ''<ul'') (L ! m)) \<and> n = i + 1))"
proof -
  from update_lines_with_section [OF assms(3-5)] obtain n where
    n: "update_lines fn title L = take n L @ [article_link fn title] @ drop n L"
    and pos: "(\<exists>j. i \<le> j \<and> j < length L \<and> sublist (str ''<ul'') (L ! j)
              \<and> (\<forall>m. i \<le> m \<and> m < j \<longrightarrow> \<not> sublist (str ''<ul'') (L ! m)) \<and> n = j + 1)
         \<or> ((\<forall>m. i \<le> m \<and> m < length L \<longrightarrow> \<not> sublist (str ''<ul'') (L ! m)) \<and> n = i + 1)"
    by blast
  from pos assms(3) have bound: "n \<le> length L" by auto
  from update_index_file [of fs "text" fn title] assms(1) n assms(2)
  have "update_index fn title fs
          = (Inr (), fs(INDEX_FILE \<mapsto> File (concat (take n L @ [article_link fn title] @ drop n L))))"
    by simp
  with pos bound show ?thesis by blast
qed

theorem update_index_existing_section_witness:
  \<open>site ex_index_with_list INDEX_FILE = Some (File ex_index_with_list)
   \<and> readlines ex_index_with_list ! 1 = str ''<section id="derniers-articles">\<newline>''
   \<and> sublist section_marker (readlines ex_index_with_list ! 1)
   \<and> \<not> sublist section_marker (readlines ex_index_with_list ! 0)
   \<and> update_index (str ''a.html'') (str ''T'') (site ex_index_with_list)
      = (Inr (), site (str ''<main>\<newline><section id="derniers-articles">\<newline><ul>\<newline>''
                       @ str ''    <li><a href="news/a.html">T</a></li>\<newline>''
                       @ str ''<li>old</li>\<newline></ul>\<newline></section>\<newline></main>\<newline>''))\<close>
proof -
  have f: "site ex_index_with_list INDEX_FILE = Some (File ex_index_with_list)"
    by (simp add: site_def)
  have len: "1 < length (readlines ex_index_with_list)" by (simp add: readlines_with_list)
  have at: "sublist section_marker (readlines ex_index_with_list ! 1)"
    by (simp add: readlines_with_list section_marker_def sublist_code str_def)
  have before: "\<forall>k<1. \<not> sublist section_marker (readlines ex_index_with_list ! k)"
    by (simp add: readlines_with_list section_marker_def sublist_code str_def)
  have run: "update_index (str ''a.html'') (str ''T'') (site ex_index_with_list)
      = (Inr (), site (str ''<main>\<newline><section id=\"derniers-articles\">\<newline><ul>\<newline>''
                       @ str ''    <li><a href=\"news/a.html\">T</a></li>\<newline>''
                       @ str ''<li>old</li>\<newline></ul>\<newline></section>\<newline></main>\<newline>''))"
    by (simp add: update_index_file [of _ ex_index_with_list] site_def update_lines_with_list) (simp add: str_def)
  from update_index_existing_section
      [of "site ex_index_with_list" ex_index_with_list "readlines ex_index_with_list" 1
        "str ''a.html''" "str ''T''"]
    f len at before run
  show ?thesis by (simp add: readlines_with_list)
qed

text \<open>
  C9. When no line of \<open>index.html\<close> holds the section marker, the written index is the
  old list of lines with a new section (section, h2, ul, the new li, the closing tags)
  inserted right before the first line that holds \<open></main\<close>>, and appended after the
  last line when there is none.
\<close>

theorem update_index_new_section:
  assumes "fs INDEX_FILE = Some (File text)" and "L = readlines text"
    and "\<forall>l\<in>set L. \<not> sublist section_marker l"
  shows \<open>\<exists>n. update_index fn title fs
          = (Inr (), fs(INDEX_FILE \<mapsto> File (concat (take n L
               @ [str ''  <section id="derniers-articles">\<newline>'',
                  str ''    <h2>Derniers articles</h2>\<newline>'',
                  str ''    <ul>\<newline>'',
                  article_link fn title,
                  str ''    </ul>\<newline>'',
                  str ''  </section>\<newline>'']
               @ drop n L))))
     \<and> ((n < length L \<and> sublist (str ''</main>'') (L ! n)
              \<and> (\<forall>m<n. \<not> sublist (str ''</main>'') (L ! m)))
         \<or> (n = length L \<and> (\<forall>l\<in>set L. \<not> sublist (str ''</main>'') l)))\<close>
proof -
  from update_lines_without_section [OF assms(3)] obtain n where
    n: "update_lines fn title L = take n L @ section_html (article_link fn title) @ drop n L"
    and pos: "(n < length L \<and> sublist (str ''</main>'') (L ! n)
              \<and> (\<forall>m<n. \<not> sublist (str ''</main>'') (L ! m)))
         \<or> (n = length L \<and> (\<forall>l\<in>set L. \<not> sublist (str ''</main>'') l))"
    by blast
  from update_index_file [of fs "text" fn title] assms(1) n assms(2)
  have "update_index fn title fs
          = (Inr (), fs(INDEX_FILE \<mapsto> File (concat (take n L
               @ section_html (article_link fn title) @ drop n L))))"
    by simp
  with pos show ?thesis unfolding section_html_def by blast
qed

theorem update_index_new_section_witness:
  \<open>site ex_index_plain INDEX_FILE = Some (File ex_index_plain)
   \<and> readlines ex_index_plain
        = [str ''<main>\<newline>'', str ''<p>Bienvenue</p>\<newline>'', str ''</main>\<newline>'']
   \<and> \<not> sublist section_marker (str ''<main>\<newline>'')
   \<and> \<not> sublist section_marker (str ''<p>Bienvenue</p>\<newline>'')
   \<and> \<not> sublist section_marker (str ''</main>\<newline>'')
   \<and> update_index (str ''a.html'') (str ''T'') (site ex_index_plain)
      = (Inr (), site (str ''<main>\<newline><p>Bienvenue</p>\<newline>''
                       @ str ''  <section id="derniers-articles">\<newline>''
                       @ str ''    <h2>Derniers articles</h2>\<newline>''
                       @ str ''    <ul>\<newline>''
                       @ str ''    <li><a href="news/a.html">T</a></li>\<newline>''
                       @ str ''    </ul>\<newline>''
                       @ str ''  </section>\<newline>''
                       @ str ''</main>\<newline>''))\<close>
proof -
  have f: "site ex_index_plain INDEX_FILE = Some (File ex_index_plain)"
    by (simp add: site_def)
  have none: "\<forall>l\<in>set (readlines ex_index_plain). \<not> sublist section_marker l"
    by (simp add: readlines_plain section_marker_def sublist_code str_def)
  have run: \<open>update_index (str ''a.html'') (str ''T'') (site ex_index_plain)
      = (Inr (), site (str ''<main>\<newline><p>Bienvenue</p>\<newline>''
                       @ str ''  <section id="derniers-articles">\<newline>''
                       @ str ''    <h2>Derniers articles</h2>\<newline>''
                       @ str ''    <ul>\<newline>''
                       @ str ''    <li><a href="news/a.html">T</a></li>\<newline>''
                       @ str ''    </ul>\<newline>''
                       @ str ''  </section>\<newline>''
                       @ str ''</main>\<newline>''))\<close>
    by (simp add: update_index_file [of _ ex_index_plain] site_def readlines_plain update_lines_def
        section_marker_def section_html_def article_link_def path_join_def NEWS_DIR_def
        sublist_code str_def)
  from update_index_new_section
      [of "site ex_index_plain" ex_index_plain "readlines ex_index_plain"
        "str ''a.html''" "str ''T''"]
    f none run
  show ?thesis by (simp add: readlines_plain)
qed

text \<open>
  C8, as stated: no existing line is removed or rewritten, and every line of
  \<open>index.html\<close> before the update is a line of it after the update. In the first index
  below the last line has no newline and the new section is appended: the first
  inserted line is written onto that last line, which is then no longer a line of the
  file. In the second index every line ends with CR LF: every line is written back with
  LF alone.
\<close>

theorem unterminated_last_line_counterexample:
  \<open>readlines ex_index_unterminated = [str ''<p>Bienvenue</p>'']
   \<and> update_index (str ''a.html'') (str ''T'') (site ex_index_unterminated)
      = (Inr (), site (str ''<p>Bienvenue</p>  <section id="derniers-articles">\<newline>''
             @ str ''    <h2>Derniers articles</h2>\<newline>''
             @ str ''    <ul>\<newline>''
             @ str ''    <li><a href="news/a.html">T</a></li>\<newline>''
             @ str ''    </ul>\<newline>''
             @ str ''  </section>\<newline>''))
   \<and> readlines (str ''<p>Bienvenue</p>  <section id="derniers-articles">\<newline>''
             @ str ''    <h2>Derniers articles</h2>\<newline>''
             @ str ''    <ul>\<newline>''
             @ str ''    <li><a href="news/a.html">T</a></li>\<newline>''
             @ str ''    </ul>\<newline>''
             @ str ''  </section>\<newline>'')
      = [str ''<p>Bienvenue</p>  <section id="derniers-articles">\<newline>'',
         str ''    <h2>Derniers articles</h2>\<newline>'',
         str ''    <ul>\<newline>'',
         str ''    <li><a href="news/a.html">T</a></li>\<newline>'',
         str ''    </ul>\<newline>'',
         str ''  </section>\<newline>'']
   \<and> str ''<p>Bienvenue</p>''
       \<notin> set [str ''<p>Bienvenue</p>  <section id="derniers-articles">\<newline>'',
               str ''    <h2>Derniers articles</h2>\<newline>'',
               str ''    <ul>\<newline>'',
               str ''    <li><a href="news/a.html">T</a></li>\<newline>'',
               str ''    </ul>\<newline>'',
               str ''  </section>\<newline>'']
   \<and> ex_index_crlf = str ''<main>'' @ [13, 10] @ str ''</main>'' @ [13, 10]
   \<and> update_index (str ''a.html'') (str ''T'') (site ex_index_crlf)
      = (Inr (), site (str ''<main>\<newline>''
             @ str ''  <section id="derniers-articles">\<newline>''
             @ str ''    <h2>Derniers articles</h2>\<newline>''
             @ str ''    <ul>\<newline>''
             @ str ''    <li><a href="news/a.html">T</a></li>\<newline>''
             @ str ''    </ul>\<newline>''
             @ str ''  </section>\<newline>''
             @ str ''</main>\<newline>''))\<close>
  by (simp add: index_eval ex_index_unterminated_def ex_index_crlf_def str_def)

text \<open>
  C8, amended. The index is read in text mode, so the lines \<open>update_index\<close> works on
  are those of the text with every CR LF and CR translated to LF, and that is how they
  are written back. On these lines \<open>update_index\<close> only inserts: the list it passes to
  \<open>writelines\<close> holds every line read, in the same order. Every line read is also a line
  of the written file, in the same order, unless the text ends without a line terminator
  and the patched list is the old list followed by the inserted lines.
\<close>

theorem update_index_keeps_lines:
  assumes "fs INDEX_FILE = Some (File text)"
  shows "update_index fn title fs
           = (Inr (), fs(INDEX_FILE \<mapsto> File (concat (update_lines fn title (readlines text)))))
     \<and> concat (readlines text) = translate_newlines text
     \<and> subseq (readlines text) (update_lines fn title (readlines text))
     \<and> (text = [] \<or> last text = 10 \<or> last text = 13
          \<or> \<not> prefix (readlines text) (update_lines fn title (readlines text))
        \<longrightarrow> subseq (readlines text)
              (readlines (concat (update_lines fn title (readlines text)))))"
proof -
  define L where "L = readlines text"
  obtain n X where shape: "update_lines fn title L = take n L @ X @ drop n L"
    and X: "concat X \<noteq> []" "last (concat X) = 10"
    using update_lines_shape by blast
  have written: "update_index fn title fs
      = (Inr (), fs(INDEX_FILE \<mapsto> File (concat (update_lines fn title L))))"
    using update_index_file [of fs "text" fn title] assms by (simp add: L_def)
  have whole: "concat L = translate_newlines text"
    by (simp add: L_def readlines_def concat_split_lines)
  have listed: "subseq L (update_lines fn title L)"
    unfolding shape by (rule subseq_insert_middle)
  have "subseq L (readlines (concat (update_lines fn title L)))"
    if c: "text = [] \<or> last text = 10 \<or> last text = 13 \<or> \<not> prefix L (update_lines fn title L)"
  proof -
    have head: "\<forall>l\<in>set (take n L). complete_line l"
    proof (cases "n < length L")
      case True
      then show ?thesis
        unfolding L_def readlines_def by (rule take_split_lines_complete)
    next
      case False
      then have "update_lines fn title L = L @ X" by (simp add: shape)
      then have "prefix L (update_lines fn title L)" by simp
      with c have ends: "text = [] \<or> last text = 10 \<or> last text = 13" by blast
      have "translate_newlines text = [] \<or> last (translate_newlines text) = 10"
      proof (cases "text = []")
        case True
        then show ?thesis by simp
      next
        case False
        with ends have "last text = 10 \<or> last text = 13" by simp
        with False show ?thesis by (simp add: translate_newlines_last)
      qed
      then have "\<forall>l\<in>set L. complete_line l"
        unfolding L_def readlines_def by (rule split_lines_complete)
      then show ?thesis by (meson in_set_takeD)
    qed
    from readlines_after_insert [OF head [unfolded L_def] X] obtain Y where
      "readlines (concat (take n L @ X @ drop n L)) = take n L @ Y @ drop n L"
      unfolding L_def by blast
    then show ?thesis unfolding shape by (simp only: subseq_insert_middle)
  qed
  with written whole listed show ?thesis unfolding L_def by blast
qed

theorem update_index_keeps_lines_witness:
  \<open>site ex_index_unclosed INDEX_FILE = Some (File ex_index_unclosed)
   \<and> last ex_index_unclosed \<noteq> 10 \<and> last ex_index_unclosed \<noteq> 13
   \<and> \<not> prefix (readlines ex_index_unclosed)
         (update_lines (str ''a.html'') (str ''T'') (readlines ex_index_unclosed))
   \<and> update_index (str ''a.html'') (str ''T'') (site ex_index_unclosed)
       = (Inr (), (site ex_index_unclosed)
            (INDEX_FILE \<mapsto> File (concat (update_lines (str ''a.html'') (str ''T'')
                                            (readlines ex_index_unclosed)))))
   \<and> subseq (readlines ex_index_unclosed)
         (readlines (concat (update_lines (str ''a.html'') (str ''T'')
                               (readlines ex_index_unclosed))))\<close>
proof -
  have f: "site ex_index_unclosed INDEX_FILE = Some (File ex_index_unclosed)"
    by (simp add: site_def)
  have l: "last ex_index_unclosed \<noteq> 10" "last ex_index_unclosed \<noteq> 13"
    by (simp_all add: ex_index_unclosed_def str_def)
  have rl: \<open>readlines ex_index_unclosed
      = [str ''<main>\<newline>'', str ''<p>Bienvenue</p>\<newline>'', str ''</main>\<newline>'',
         str ''</html>'']\<close>
    by (simp add: readlines_def ex_index_unclosed_def str_def)
  have np: "\<not> prefix (readlines ex_index_unclosed)
         (update_lines (str ''a.html'') (str ''T'') (readlines ex_index_unclosed))"
    unfolding rl
    by (simp add: update_lines_def section_marker_def section_html_def article_link_def
        path_join_def NEWS_DIR_def sublist_code str_def)
  from update_index_keeps_lines [of "site ex_index_unclosed" ex_index_unclosed "str ''a.html''" "str ''T''"]
    f l np
  show ?thesis by blast
qed

section \<open>The output directory and the dated file\<close>




text \<open>
  C6, at a title that holds a \<open>/\<close>. The name built from the date and the title is
  \<open>2024-05-06-us/china-talks.html\<close>; joined to \<open>news\<close> it is a path whose directory is
  \<open>news/2024-05-06-us\<close>, so the run creates that directory and writes a file named
  \<open>china-talks.html\<close> there, not a file of the built name in \<open>news\<close>. For a name
  without \<open>/\<close> the directory of the path is \<open>news\<close> (\<open>dirname_article_path\<close>).
\<close>

theorem slash_in_title_leaves_news_dir:
  "dated_filename (env_of [[(''title'', str ''US/China talks'')]]) (str ''US/China talks'')
     = str ''2024-05-06-us/china-talks.html''
   \<and> dirname (path_join NEWS_DIR (str ''2024-05-06-us/china-talks.html'')) = str ''news/2024-05-06-us''
   \<and> main (env_of [[(''title'', str ''US/China talks'')]]) Map.empty
     = (Inr (),
        [str ''news'' \<mapsto> Dir,
         str ''news/2024-05-06-us'' \<mapsto> Dir,
         str ''news/2024-05-06-us/china-talks.html'' \<mapsto>
           File (article_content (str ''US/China talks'') [] [] (str ''2024-05-06T07:08:09''))],
        [msg_added (str ''2024-05-06-us/china-talks.html'')])"
proof -
  have mk: "makedirs (str ''news/2024-05-06-us'') Map.empty
      = (Inr (), [str ''news'' \<mapsto> Dir, str ''news/2024-05-06-us'' \<mapsto> Dir])"
    by (subst makedirs.simps) (simp add: fs_eval makedirs_name str_def)
  have name: "dated_filename (env_of [[(''title'', str ''US/China talks'')]]) (str ''US/China talks'')
     = str ''2024-05-06-us/china-talks.html''"
    by (simp add: run_eval str_def)
  have dir: "dirname (path_join NEWS_DIR (str ''2024-05-06-us/china-talks.html''))
      = str ''news/2024-05-06-us''"
    by (simp add: path_join_def NEWS_DIR_def dirname_def str_def)
  have "main (env_of [[(''title'', str ''US/China talks'')]]) Map.empty
     = (Inr (),
        [str ''news'' \<mapsto> Dir,
         str ''news/2024-05-06-us'' \<mapsto> Dir,
         str ''news/2024-05-06-us/china-talks.html'' \<mapsto>
           File (article_content (str ''US/China talks'') [] [] (str ''2024-05-06T07:08:09''))],
        [msg_added (str ''2024-05-06-us/china-talks.html'')])"
    using mk by (simp add: run_eval fs_eval str_def)
  with name dir show ?thesis by simp
qed

end
